theory Spec2Isabelle
  imports Main "HOL-Library.Sublist"
begin

section \<open>Python strings and integers\<close>

text \<open>
  The three converters of TRACE modelled here (\<^verbatim>\<open>vcf2bed.py\<close>, \<^verbatim>\<open>bed_processor.py\<close>,
  \<^verbatim>\<open>squash_intersect.py\<close>) are line-oriented text filters. A Python \<^verbatim>\<open>str\<close> is modelled as a
  \<^typ>\<open>string\<close>; a \<^typ>\<open>char\<close> stands for a code point below 256. Python's \<^verbatim>\<open>int\<close> is
  \<^typ>\<open>int\<close>. The conversions \<^verbatim>\<open>int(s)\<close> and \<^verbatim>\<open>str(n)\<close> are modelled without CPython's
  configurable limit on the number of digits of a conversion (4300 by default in recent
  interpreters). Logging calls of the sources that do not influence a result are left out.
\<close>

definition TAB :: char where
  "TAB = CHR 0x09"

definition LF :: char where
  "LF = CHR 0x0A"

text \<open>\<^verbatim>\<open>str.isspace\<close> on the code points below 256.\<close>

definition is_space :: "char \<Rightarrow> bool" where
  "is_space c \<longleftrightarrow>
     c = CHR 0x09 \<or> c = CHR 0x0A \<or> c = CHR 0x0B \<or> c = CHR 0x0C \<or> c = CHR 0x0D \<or>
     c = CHR 0x1C \<or> c = CHR 0x1D \<or> c = CHR 0x1E \<or> c = CHR 0x1F \<or> c = CHR 0x20 \<or>
     c = CHR 0x85 \<or> c = CHR 0xA0"

text \<open>\<^verbatim>\<open>s.strip()\<close>: leading and trailing whitespace removed.\<close>

definition strip :: "string \<Rightarrow> string" where
  "strip s = rev (dropWhile is_space (rev (dropWhile is_space s)))"

text \<open>\<^verbatim>\<open>s.startswith(p)\<close>.\<close>

definition startswith :: "string \<Rightarrow> string \<Rightarrow> bool" where
  "startswith s p \<longleftrightarrow> take (length p) s = p"

text \<open>\<^verbatim>\<open>p in s\<close>: \<open>p\<close> occurs in \<open>s\<close> as a contiguous substring.\<close>

fun contains :: "string \<Rightarrow> string \<Rightarrow> bool" where
  "contains [] p = (p = [])"
| "contains (c # cs) p = (startswith (c # cs) p \<or> contains cs p)"

text \<open>\<^verbatim>\<open>s.split(sep)\<close> for a separator of one character, as in \<^verbatim>\<open>split('\t')\<close>:
  a cut at every occurrence, so the result has one more piece than there are separators.\<close>

fun split_on :: "char \<Rightarrow> string \<Rightarrow> string list" where
  "split_on sep [] = [[]]"
| "split_on sep (c # cs) =
     (if c = sep then [] # split_on sep cs
      else (case split_on sep cs of
              w # ws \<Rightarrow> (c # w) # ws
            | [] \<Rightarrow> [[c]]))"

text \<open>\<^verbatim>\<open>sep.join(xs)\<close> for a separator of one character.\<close>

fun join_with :: "char \<Rightarrow> string list \<Rightarrow> string" where
  "join_with sep [] = []"
| "join_with sep [x] = x"
| "join_with sep (x # y # ys) = x @ sep # join_with sep (y # ys)"

text \<open>Decimal digits: the only characters below 256 that Python's \<^verbatim>\<open>int\<close> and the
  regular expression class \<^verbatim>\<open>\d\<close> accept as digits.\<close>

definition digit_chars :: string where
  "digit_chars = ''0123456789''"

definition is_digit :: "char \<Rightarrow> bool" where
  "is_digit c \<longleftrightarrow> c \<in> set digit_chars"

definition digit_char :: "nat \<Rightarrow> char" where
  "digit_char d = digit_chars ! d"

definition digit_val :: "char \<Rightarrow> nat" where
  "digit_val c = length (takeWhile (\<lambda>d. d \<noteq> c) digit_chars)"

text \<open>\<^verbatim>\<open>str(n)\<close> of an integer: decimal digits, a minus sign for a negative number.\<close>

fun str_nat :: "nat \<Rightarrow> string" where
  "str_nat n = (if n < 10 then [digit_char n] else str_nat (n div 10) @ [digit_char (n mod 10)])"

declare str_nat.simps [simp del]

definition py_str :: "int \<Rightarrow> string" where
  "py_str i = (if i < 0 then CHR ''-'' # str_nat (nat (- i)) else str_nat (nat i))"

text \<open>\<^verbatim>\<open>int(s)\<close> in base 10: surrounding whitespace is ignored, one sign is allowed, and
  single underscores may separate digits. \<open>None\<close> stands for the \<^verbatim>\<open>ValueError\<close> that
  Python raises on any other text.\<close>

fun parse_digits :: "nat \<Rightarrow> string \<Rightarrow> nat option" where
  "parse_digits acc [] = Some acc"
| "parse_digits acc (c # cs) =
     (if is_digit c then parse_digits (acc * 10 + digit_val c) cs
      else if c = CHR ''_'' then
        (case cs of
           [] \<Rightarrow> None
         | d # ds \<Rightarrow> if is_digit d then parse_digits (acc * 10 + digit_val d) ds else None)
      else None)"

definition parse_nat :: "string \<Rightarrow> nat option" where
  "parse_nat s = (case s of
       [] \<Rightarrow> None
     | c # cs \<Rightarrow> if is_digit c then parse_digits (digit_val c) cs else None)"

definition py_int :: "string \<Rightarrow> int option" where
  "py_int s = (case strip s of
       [] \<Rightarrow> None
     | c # cs \<Rightarrow>
         if c = CHR ''-'' then map_option (\<lambda>n. - int n) (parse_nat cs)
         else if c = CHR ''+'' then map_option int (parse_nat cs)
         else map_option int (parse_nat (c # cs)))"

datatype error = ValueError | IndexError

section \<open>The INFO extractor shared by the converters\<close>

text \<open>
  \<^verbatim>\<open>re.search(f'{field_name}=([^;]+)', info_string)\<close>. The callers pass the names
  \<^verbatim>\<open>SVTYPE\<close>, \<^verbatim>\<open>END\<close> and \<^verbatim>\<open>SVLEN\<close>, which hold no character that is special in a
  regular expression, so the pattern is the literal text \<open>name=\<close> followed by a greedy run
  of at least one character other than a semicolon. \<open>match_here\<close> is the attempt at one
  start position, \<open>re_search_field\<close> tries the positions from left to right and returns
  group 1 of the first match.
\<close>

definition match_here :: "string \<Rightarrow> string \<Rightarrow> string option" where
  "match_here name s =
     (if startswith s (name @ ''='') then
        (let v = takeWhile (\<lambda>c. c \<noteq> CHR '';'') (drop (length name + 1) s)
         in if v = [] then None else Some v)
      else None)"

fun re_search_field :: "string \<Rightarrow> string \<Rightarrow> string option" where
  "re_search_field name [] = match_here name []"
| "re_search_field name (c # cs) =
     (case match_here name (c # cs) of
        Some v \<Rightarrow> Some v
      | None \<Rightarrow> re_search_field name cs)"

definition extract_info_field :: "string \<Rightarrow> string \<Rightarrow> string option" where
  "extract_info_field info_string field_name = re_search_field field_name info_string"

section \<open>\<^verbatim>\<open>bed_processor.py\<close>: the flank expander\<close>







section \<open>\<^verbatim>\<open>vcf2bed.py\<close>: the interval extractor and the breakpoint resolver\<close>

subsection \<open>The three patterns of \<^verbatim>\<open>parse_bnd_alt\<close>\<close>

definition is_base :: "char \<Rightarrow> bool" where
  "is_base c \<longleftrightarrow> c \<in> set ''ACGTN''"

definition is_bracket :: "char \<Rightarrow> bool" where
  "is_bracket c \<longleftrightarrow> c = CHR ''['' \<or> c = CHR '']''"

text \<open>
  The part common to the three patterns, \<^verbatim>\<open>[\[\]]([^:]+):(\d+)[\[\]]\<close>, matched at the head
  of a string: the result is group 1, group 2 and the text left after the closing bracket.
  Each greedy run is followed by an element outside its class (a colon after \<^verbatim>\<open>[^:]+\<close>, a
  bracket after \<^verbatim>\<open>\d+\<close>), so the longest run is the only one that can lead to a match.
\<close>

definition match_mate :: "string \<Rightarrow> (string \<times> string \<times> string) option" where
  "match_mate s = (case s of
       [] \<Rightarrow> None
     | b1 # r \<Rightarrow>
         if \<not> is_bracket b1 then None
         else
           (let chrom = takeWhile (\<lambda>c. c \<noteq> CHR '':'') r;
                r1 = dropWhile (\<lambda>c. c \<noteq> CHR '':'') r
            in if chrom = [] then None
               else (case r1 of
                       [] \<Rightarrow> None
                     | colon # r2 \<Rightarrow>
                         (let digits = takeWhile is_digit r2;
                              r3 = dropWhile is_digit r2
                          in if digits = [] then None
                             else (case r3 of
                                     [] \<Rightarrow> None
                                   | b2 # rest \<Rightarrow>
                                       if is_bracket b2 then Some (chrom, digits, rest)
                                       else None)))))"

text \<open>\<^verbatim>\<open>$\<close> without the multi-line flag: the end of the string, or the place just before
  a line feed that ends the string.\<close>

definition at_end :: "string \<Rightarrow> bool" where
  "at_end s \<longleftrightarrow> s = [] \<or> s = [LF]"

text \<open>Pattern 1, \<^verbatim>\<open>^[ACGTN]+[\[\]]([^:]+):(\d+)[\[\]]$\<close>.\<close>

definition bnd_pattern1 :: "string \<Rightarrow> (string \<times> string) option" where
  "bnd_pattern1 s =
     (if takeWhile is_base s = [] then None
      else (case match_mate (dropWhile is_base s) of
              None \<Rightarrow> None
            | Some (chrom, digits, rest) \<Rightarrow> if at_end rest then Some (chrom, digits) else None))"

text \<open>Pattern 2, \<^verbatim>\<open>^[\[\]]([^:]+):(\d+)[\[\]][ACGTN]+$\<close>.\<close>

definition bnd_pattern2 :: "string \<Rightarrow> (string \<times> string) option" where
  "bnd_pattern2 s =
     (case match_mate s of
        None \<Rightarrow> None
      | Some (chrom, digits, rest) \<Rightarrow>
          if takeWhile is_base rest \<noteq> [] \<and> at_end (dropWhile is_base rest)
          then Some (chrom, digits) else None)"

text \<open>Pattern 3, \<^verbatim>\<open>^[\[\]]([^:]+):(\d+)[\[\]]$\<close>.\<close>

definition bnd_pattern3 :: "string \<Rightarrow> (string \<times> string) option" where
  "bnd_pattern3 s =
     (case match_mate s of
        None \<Rightarrow> None
      | Some (chrom, digits, rest) \<Rightarrow> if at_end rest then Some (chrom, digits) else None)"

text \<open>The loop over the patterns: the groups of the first pattern that matches.\<close>

fun first_match :: "(string \<Rightarrow> (string \<times> string) option) list \<Rightarrow> string \<Rightarrow> (string \<times> string) option" where
  "first_match [] s = None"
| "first_match (p # ps) s = (case p s of Some g \<Rightarrow> Some g | None \<Rightarrow> first_match ps s)"

text \<open>\<^verbatim>\<open>parse_bnd_alt\<close>: \<open>Inr (Some (chrom, pos))\<close> for a match, \<open>Inr None\<close> for the pair
  \<^verbatim>\<open>(None, None)\<close>, and \<open>Inl\<close> for an exception of \<^verbatim>\<open>int(match.group(2))\<close>.\<close>

definition parse_bnd_alt :: "string \<Rightarrow> error + (string \<times> int) option" where
  "parse_bnd_alt alt_field =
     (case first_match [bnd_pattern1, bnd_pattern2, bnd_pattern3] alt_field of
        None \<Rightarrow> Inr None
      | Some (chrom, digits) \<Rightarrow>
          (case py_int digits of
             None \<Rightarrow> Inl ValueError
           | Some pos \<Rightarrow> Inr (Some (chrom, pos))))"

subsection \<open>\<^verbatim>\<open>vcf_to_bed\<close>\<close>

text \<open>The state of the conversion loop: the lines written to the BED file so far, the
  numbers of the lines reported on the error stream as having too few fields, and the
  counters of the source.\<close>

record run_state =
  bed :: "string list"
  warnings :: "nat list"
  line_count :: nat
  variant_count :: nat
  skipped_ins_count :: nat
  parsed_bnd_count :: nat
  unparsed_bnd_count :: nat

definition init_state :: run_state where
  "init_state = \<lparr>bed = [], warnings = [], line_count = 0, variant_count = 0,
     skipped_ins_count = 0, parsed_bnd_count = 0, unparsed_bnd_count = 0\<rparr>"

text \<open>One line written by \<^verbatim>\<open>bed.write\<close>: ten tab-separated fields and a line feed.\<close>

definition bed_row ::
  "string \<Rightarrow> int \<Rightarrow> int \<Rightarrow> string \<Rightarrow> string \<Rightarrow> string \<Rightarrow> string \<Rightarrow> string \<Rightarrow> string \<Rightarrow> string \<Rightarrow> string" where
  "bed_row chrom bed_start bed_end var_id ref alt qual filter_field info format_field =
     join_with TAB [chrom, py_str bed_start, py_str bed_end, var_id, ref, alt, qual,
       filter_field, info, format_field] @ [LF]"

text \<open>"Determine end position": \<^verbatim>\<open>if end_str: ... elif svlen_str: ... else: ...\<close>, where
  \<^verbatim>\<open>None\<close> and the empty string are false.\<close>

definition truthy :: "string option \<Rightarrow> bool" where
  "truthy x = (case x of None \<Rightarrow> False | Some s \<Rightarrow> s \<noteq> [])"

definition resolve_end :: "int \<Rightarrow> string option \<Rightarrow> string option \<Rightarrow> error + int" where
  "resolve_end pos end_str svlen_str =
     (if truthy end_str then
        (case py_int (the end_str) of None \<Rightarrow> Inl ValueError | Some e \<Rightarrow> Inr e)
      else if truthy svlen_str then
        (case py_int (the svlen_str) of
           None \<Rightarrow> Inl ValueError
         | Some svlen \<Rightarrow> if svlen < 0 then Inr (pos + abs svlen) else Inr pos)
      else Inr pos)"

text \<open>The mate line of a BND record: \<^verbatim>\<open>if bnd_chrom and bnd_pos:\<close> is false for the pair
  \<^verbatim>\<open>(None, None)\<close>, for an empty chromosome and for position 0.\<close>

definition bnd_step ::
  "string list \<Rightarrow> string \<Rightarrow> (string \<times> int) option \<Rightarrow> run_state \<Rightarrow> run_state" where
  "bnd_step flds format_field mate st =
     (case mate of
        None \<Rightarrow> st\<lparr>unparsed_bnd_count := unparsed_bnd_count st + 1\<rparr>
      | Some (bnd_chrom, bnd_pos) \<Rightarrow>
          if bnd_chrom \<noteq> [] \<and> bnd_pos \<noteq> 0 then
            (let bnd_start = (if bnd_pos = 0 then 0 else bnd_pos - 1);
                 bnd_end = (if bnd_pos = 0 then 1 else bnd_pos)
             in st\<lparr>bed := bed st @ [bed_row bnd_chrom bnd_start bnd_end (flds ! 2) (flds ! 3)
                       (flds ! 4) (flds ! 5) (flds ! 6) (flds ! 7) format_field],
                   variant_count := variant_count st + 1,
                   parsed_bnd_count := parsed_bnd_count st + 1\<rparr>)
          else st\<lparr>unparsed_bnd_count := unparsed_bnd_count st + 1\<rparr>)"

text \<open>The body of the loop \<^verbatim>\<open>for line in vcf\<close> for one line; \<open>Inl\<close> is an exception that
  leaves the loop.\<close>

definition vcf_record :: "bool \<Rightarrow> bool \<Rightarrow> string \<Rightarrow> run_state \<Rightarrow> error + run_state" where
  "vcf_record parse_bnd include_ins line st0 =
     (let st = st0\<lparr>line_count := line_count st0 + 1\<rparr> in
      if startswith line ''#'' then Inr st
      else
        (let fields = split_on TAB (strip line) in
         if length fields < 9 then Inr (st\<lparr>warnings := warnings st @ [line_count st]\<rparr>)
         else
           (case py_int (fields ! 1) of
              None \<Rightarrow> Inl ValueError
            | Some pos \<Rightarrow>
                (let info = fields ! 7;
                     format_field = (if length fields \<ge> 9 then fields ! 8 else []);
                     svtype = extract_info_field info ''SVTYPE''
                 in if svtype = Some ''INS'' \<and> \<not> include_ins
                    then Inr (st\<lparr>skipped_ins_count := skipped_ins_count st + 1\<rparr>)
                    else
                      (let end_str = extract_info_field info ''END'';
                           svlen_str = extract_info_field info ''SVLEN''
                       in case resolve_end pos end_str svlen_str of
                            Inl e \<Rightarrow> Inl e
                          | Inr end_pos \<Rightarrow>
                              (let bed_start = pos - 1;
                                   bed_end = end_pos;
                                   st1 = st\<lparr>bed := bed st @ [bed_row (fields ! 0) bed_start bed_end
                                              (fields ! 2) (fields ! 3) (fields ! 4) (fields ! 5)
                                              (fields ! 6) info format_field],
                                            variant_count := variant_count st + 1\<rparr>
                               in if svtype = Some ''BND'' \<and> parse_bnd then
                                    (case parse_bnd_alt (fields ! 4) of
                                       Inl e \<Rightarrow> Inl e
                                     | Inr mate \<Rightarrow> Inr (bnd_step fields format_field mate st1))
                                  else Inr st1))))))"

text \<open>How a run ends: the loop runs to the end of the file, or an exception reaches the
  handler \<^verbatim>\<open>except Exception\<close>, which prints the error and calls \<^verbatim>\<open>sys.exit(1)\<close>.\<close>

datatype outcome = Completed | Exit nat

fun vcf_loop :: "bool \<Rightarrow> bool \<Rightarrow> string list \<Rightarrow> run_state \<Rightarrow> outcome \<times> run_state" where
  "vcf_loop parse_bnd include_ins [] st = (Completed, st)"
| "vcf_loop parse_bnd include_ins (line # rest) st =
     (case vcf_record parse_bnd include_ins line st of
        Inl e \<Rightarrow> (Exit 1, st\<lparr>line_count := line_count st + 1\<rparr>)
      | Inr st' \<Rightarrow> vcf_loop parse_bnd include_ins rest st')"

text \<open>\<^verbatim>\<open>vcf_to_bed\<close> on the lines of an input file that could be opened, as the iteration
  over the file yields them.\<close>

definition vcf_to_bed :: "string list \<Rightarrow> bool \<Rightarrow> bool \<Rightarrow> outcome \<times> run_state" where
  "vcf_to_bed input_lines parse_bnd include_ins = vcf_loop parse_bnd include_ins input_lines init_state"

section \<open>\<^verbatim>\<open>squash_intersect.py\<close>: the multi-row aggregator\<close>

text \<open>\<^verbatim>\<open>s.split(sep)\<close> for a separator that is a string (the option \<^verbatim>\<open>--delimiter\<close>):
  the occurrences are found from left to right and do not overlap. An empty separator
  raises \<^verbatim>\<open>ValueError\<close>.\<close>

function split_str :: "string \<Rightarrow> string \<Rightarrow> string list" where
  "split_str sep [] = [[]]"
| "split_str sep (c # cs) =
     (if sep \<noteq> [] \<and> startswith (c # cs) sep
      then [] # split_str sep (drop (length sep) (c # cs))
      else (case split_str sep cs of
              w # ws \<Rightarrow> (c # w) # ws
            | [] \<Rightarrow> [[c]]))"
  by pat_completeness auto
termination
  by (relation "measure (\<lambda>(sep, s). length s)") auto

definition py_split :: "string \<Rightarrow> string \<Rightarrow> error + string list" where
  "py_split s sep = (if sep = [] then Inl ValueError else Inr (split_str sep s))"

text \<open>\<^verbatim>\<open>process_bed_line\<close> of \<^verbatim>\<open>squash_intersect.py\<close>: \<open>Inr None\<close> is the pair
  \<^verbatim>\<open>(None, None)\<close> of a line that is skipped, \<open>Inr (Some (sniffles_id, elements))\<close> a row
  with its key and its columns 11 to 19.\<close>

definition squash_process_bed_line ::
  "string \<Rightarrow> string \<Rightarrow> nat \<Rightarrow> error + (string \<times> string list) option" where
  "squash_process_bed_line raw delimiter line_num =
     (let line = strip raw in
      if line = [] \<or> startswith line ''#'' then Inr None
      else (case py_split line delimiter of
              Inl e \<Rightarrow> Inl e
            | Inr columns \<Rightarrow>
                if length columns < 19 then Inr None
                else Inr (Some (columns ! 3, take 9 (drop 10 columns)))))"

text \<open>The dictionary \<^verbatim>\<open>variants\<close> (a \<^verbatim>\<open>defaultdict(list)\<close>) as an association list in
  the order in which the keys were first seen; \<^verbatim>\<open>variants[sniffles_id].append(elements)\<close>.\<close>

type_synonym variants = "(string \<times> string list list) list"

fun variants_append :: "variants \<Rightarrow> string \<Rightarrow> string list \<Rightarrow> variants" where
  "variants_append [] k e = [(k, [e])]"
| "variants_append ((k', es) # vs) k e =
     (if k' = k then (k', es @ [e]) # vs else (k', es) # variants_append vs k e)"

text \<open>The loop of \<^verbatim>\<open>squash_variants\<close> over the lines of the file, numbered from 1.\<close>

fun squash_loop ::
  "string \<Rightarrow> bool \<Rightarrow> nat \<Rightarrow> string list \<Rightarrow> variants \<Rightarrow> error + variants" where
  "squash_loop delimiter skip_header line_num [] vs = Inr vs"
| "squash_loop delimiter skip_header line_num (line # rest) vs =
     (if line_num = 1 \<and> skip_header then squash_loop delimiter skip_header (line_num + 1) rest vs
      else (case squash_process_bed_line line delimiter line_num of
              Inl e \<Rightarrow> Inl e
            | Inr None \<Rightarrow> squash_loop delimiter skip_header (line_num + 1) rest vs
            | Inr (Some (sniffles_id, elements)) \<Rightarrow>
                squash_loop delimiter skip_header (line_num + 1) rest
                  (variants_append vs sniffles_id elements)))"

definition squash_variants :: "string list \<Rightarrow> string \<Rightarrow> bool \<Rightarrow> error + variants" where
  "squash_variants input_lines delimiter skip_header =
     squash_loop delimiter skip_header 1 input_lines []"

text \<open>\<^verbatim>\<open>format_output_line\<close>: the fields of a row joined with commas, the rows joined with
  pipes (the local variable \<^verbatim>\<open>combined_elements\<close>), after the key and a tab.\<close>

definition combined_elements :: "string list list \<Rightarrow> string" where
  "combined_elements element_lists =
     join_with (CHR ''|'') (map (join_with (CHR '','')) element_lists)"

definition format_output_line :: "string \<Rightarrow> string list list \<Rightarrow> string" where
  "format_output_line sniffles_id element_lists =
     sniffles_id @ TAB # combined_elements element_lists"

section \<open>The key-level reading of an INFO string\<close>

text \<open>
  The specification reads an INFO string as entries separated by semicolons, an entry
  being \<open>key=value\<close> or a bare key. \<open>entry_value\<close> is the value of an entry for a key, if the
  entry is \<open>key=value\<close> with a non-empty value; \<open>first_value\<close> is the value of the first such
  entry of a list; \<open>key_at_start_only\<close> says that the text \<open>key=\<close> stands nowhere in an
  entry but, possibly, at its start. They are what the extractor is compared with.
\<close>

definition entry_value :: "string \<Rightarrow> string \<Rightarrow> string option" where
  "entry_value name entry =
     (if startswith entry (name @ ''='') \<and> drop (length name + 1) entry \<noteq> []
      then Some (drop (length name + 1) entry) else None)"

fun first_value :: "string \<Rightarrow> string list \<Rightarrow> string option" where
  "first_value name [] = None"
| "first_value name (e # es) =
     (case entry_value name e of Some v \<Rightarrow> Some v | None \<Rightarrow> first_value name es)"

definition key_at_start_only :: "string \<Rightarrow> string \<Rightarrow> bool" where
  "key_at_start_only name entry \<longleftrightarrow> \<not> contains (tl entry) (name @ ''='')"

section \<open>Definitions for the aggregation claim\<close>

text \<open>The rows that contribute to the aggregation, in the order of the input: the key and
  the element tuple of every line that \<^verbatim>\<open>process_bed_line\<close> does not skip (its result does
  not depend on the line number); and the tuples of the rows of one key, in that order.\<close>

definition contributing :: "string \<Rightarrow> string list \<Rightarrow> (string \<times> string list) list" where
  "contributing delimiter input_lines =
     List.map_filter (\<lambda>line. case squash_process_bed_line line delimiter 0 of
                               Inr (Some row) \<Rightarrow> Some row
                             | _ \<Rightarrow> None) input_lines"

definition tuples_of :: "string \<Rightarrow> (string \<times> string list) list \<Rightarrow> string list list" where
  "tuples_of key rows = map snd (filter (\<lambda>row. fst row = key) rows)"

section \<open>The mate-breakpoint notation of the specification\<close>





section \<open>Example records\<close>








definition telomere_vcf_line :: string where
  "telomere_vcf_line = join_with TAB [''chr1'', ''100'', ''bnd0'', ''N'', ''N]chr2:0]'', ''.'', ''PASS'',
     ''SVTYPE=BND'', ''GT''] @ [LF]"




definition eight_field_vcf_line :: string where
  "eight_field_vcf_line = join_with TAB [''chr1'', ''1000'', ''varA'', ''A'', ''<DEL>'', ''.'', ''.'',
     ''SVTYPE=DEL;END=2000''] @ [LF]"

definition ciend_vcf_line :: string where
  "ciend_vcf_line = join_with TAB [''chr1'', ''1000'', ''varG'', ''N'', ''<DEL>'', ''.'', ''PASS'',
     ''SVTYPE=DEL;CIEND=100;SVLEN=-50'', ''GT''] @ [LF]"

text \<open>Rows of an intersection file as \<^verbatim>\<open>squash_intersect.py\<close> reads them: two rows of the
  variant v1, one of v2, and a row whose column 14 holds a comma.\<close>

definition squash_row_a :: string where
  "squash_row_a = join_with TAB [''chr1'', ''100'', ''200'', ''v1'', ''N'', ''<DEL>'', ''.'', ''PASS'',
     ''SVTYPE=DEL'', ''GT'', ''chr1'', ''150'', ''180'', ''L1'', ''LINE'', ''+'', ''1'', ''30'', ''7''] @ [LF]"

definition squash_row_b :: string where
  "squash_row_b = join_with TAB [''chr1'', ''100'', ''200'', ''v1'', ''N'', ''<DEL>'', ''.'', ''PASS'',
     ''SVTYPE=DEL'', ''GT'', ''chr1'', ''190'', ''199'', ''Alu'', ''SINE'', ''-'', ''5'', ''14'', ''8''] @ [LF]"

definition squash_row_c :: string where
  "squash_row_c = join_with TAB [''chr2'', ''100'', ''200'', ''v2'', ''N'', ''<DEL>'', ''.'', ''PASS'',
     ''SVTYPE=DEL'', ''GT'', ''chr2'', ''150'', ''180'', ''L2'', ''LINE'', ''+'', ''1'', ''30'', ''9''] @ [LF]"

definition squash_row_comma :: string where
  "squash_row_comma = join_with TAB [''chr1'', ''100'', ''200'', ''v3'', ''N'', ''<DEL>'', ''.'', ''PASS'',
     ''SVTYPE=DEL'', ''GT'', ''chr1'', ''150'', ''180'', ''L1,L2'', ''LINE'', ''+'', ''1'', ''30'', ''7''] @ [LF]"

section \<open>Facts about the string and integer operations\<close>

lemma split_on_not_Nil: "split_on c s \<noteq> []"
  by (induction s) (auto split: list.splits)


lemma split_on_free: "c \<notin> set x \<Longrightarrow> split_on c x = [x]"
  by (induction x) auto

lemma split_on_append_sep:
  "c \<notin> set x \<Longrightarrow> split_on c (x @ c # s) = x # split_on c s"
  by (induction x) (auto split: list.splits)

lemma split_join:
  "xs \<noteq> [] \<Longrightarrow> \<forall>w\<in>set xs. c \<notin> set w \<Longrightarrow> split_on c (join_with c xs) = xs"
  by (induction c xs rule: join_with.induct) (auto simp: split_on_free split_on_append_sep)

lemma join_with_Cons_Cons: "join_with c ((a # x) # xs) = a # join_with c (x # xs)"
  by (cases xs) auto

lemma join_with_Nil_Cons: "xs \<noteq> [] \<Longrightarrow> join_with c ([] # xs) = c # join_with c xs"
  by (cases xs) auto

lemma join_split: "join_with c (split_on c s) = s"
  by (induction s) (auto split: list.splits simp: split_on_not_Nil join_with_Cons_Cons join_with_Nil_Cons)

text \<open>On a separator of one character the two models of \<^verbatim>\<open>split\<close> agree.\<close>

lemma split_str_single: "split_str [c] s = split_on c s"
  by (induction s) (auto simp: startswith_def)






lemma parse_digits_all: "\<forall>c\<in>set ds. is_digit c \<Longrightarrow> \<exists>v. parse_digits acc ds = Some v"
  by (induction ds arbitrary: acc) auto











section \<open>The breakpoint resolver against the notation\<close>





lemma takeWhile_stop: "\<forall>x\<in>set xs. P x \<Longrightarrow> \<not> P y \<Longrightarrow> takeWhile P (xs @ y # ys) = xs"
  by (induction xs) auto















section \<open>The INFO extractor\<close>



lemma re_search_field_skip:
  "\<forall>j<length pre. match_here name (drop j (pre @ s)) = None \<Longrightarrow>
   re_search_field name (pre @ s) = re_search_field name s"
proof (induction pre)
  case Nil
  then show ?case by simp
next
  case (Cons c pre)
  have "match_here name (drop 0 ((c # pre) @ s)) = None" using Cons.prems by blast
  then have here: "match_here name (c # pre @ s) = None" by simp
  have "\<forall>j<length pre. match_here name (drop j (pre @ s)) = None"
  proof (intro allI impI)
    fix j assume "j < length pre"
    then have "match_here name (drop (Suc j) ((c # pre) @ s)) = None" using Cons.prems by auto
    then show "match_here name (drop j (pre @ s)) = None" by simp
  qed
  then show ?case using Cons.IH here by simp
qed

lemma match_here_entry:
  assumes "v \<noteq> []" "CHR '';'' \<notin> set v" "rest = [] \<or> hd rest = CHR '';''"
  shows "match_here name (name @ ''='' @ v @ rest) = Some v"
proof -
  have "takeWhile (\<lambda>c. c \<noteq> CHR '';'') (v @ rest) = v"
  proof (cases rest)
    case Nil
    then show ?thesis using assms(2) by auto
  next
    case (Cons r rs)
    then have "r = CHR '';''" using assms(3) by simp
    then show ?thesis using assms(2) Cons by (intro takeWhile_stop[of v _ r rs, unfolded Cons[symmetric]]) auto
  qed
  then show ?thesis using assms(1) by (simp add: match_here_def startswith_def)
qed

lemma re_search_field_hd:
  "match_here name s = Some v \<Longrightarrow> re_search_field name s = Some v"
  by (cases s) auto

lemma match_anywhere:
  assumes "c \<noteq> CHR '';''"
  shows "\<exists>v. re_search_field name (pre @ name @ ''='' @ c # rest) = Some v"
proof (induction pre)
  case Nil
  have "match_here name (name @ ''='' @ c # rest) \<noteq> None"
    using assms by (simp add: match_here_def startswith_def)
  then show ?case by (cases "name @ ''='' @ c # rest") (auto split: option.splits)
next
  case (Cons a pre)
  then show ?case by (auto split: option.splits)
qed

lemma startswith_append_semi:
  assumes "CHR '';'' \<notin> set p"
  shows "startswith (x @ CHR '';'' # rest) p \<longleftrightarrow> startswith x p"
proof (cases "length p \<le> length x")
  case True
  then show ?thesis by (simp add: startswith_def)
next
  case False
  then have lt: "length x < length p" by simp
  have "\<not> startswith x p" using lt by (auto simp: startswith_def dest: arg_cong[where f=length])
  moreover have "\<not> startswith (x @ CHR '';'' # rest) p"
  proof
    assume "startswith (x @ CHR '';'' # rest) p"
    then have "p = take (length p) (x @ CHR '';'' # rest)" by (simp add: startswith_def)
    then have "p ! length x = (x @ CHR '';'' # rest) ! length x" using lt
      by (metis nth_take)
    then have "p ! length x = CHR '';''" by simp
    then show False using assms lt by (metis nth_mem)
  qed
  ultimately show ?thesis by simp
qed

lemma contains_Cons: "contains (c # cs) p \<longleftrightarrow> startswith (c # cs) p \<or> contains cs p"
  by simp

lemma match_here_None: "\<not> startswith s (name @ ''='') \<Longrightarrow> match_here name s = None"
  by (simp add: match_here_def)

lemma re_search_skip_entry:
  assumes "CHR '';'' \<notin> set name" "\<not> contains x (name @ ''='')"
  shows "re_search_field name (x @ CHR '';'' # rest) = re_search_field name rest"
  using assms(2)
proof (induction x)
  case Nil
  have "\<not> startswith (CHR '';'' # rest) (name @ ''='')"
    using assms(1) by (cases name) (auto simp: startswith_def)
  then show ?case by (simp add: match_here_None)
next
  case (Cons c x)
  have p: "CHR '';'' \<notin> set (name @ ''='')" using assms(1) by simp
  have "\<not> startswith (c # x) (name @ ''='')" "\<not> contains x (name @ ''='')"
    using Cons.prems by simp_all
  then have "\<not> startswith ((c # x) @ CHR '';'' # rest) (name @ ''='')"
    using startswith_append_semi[OF p] by blast
  then have "match_here name (c # x @ CHR '';'' # rest) = None" by (simp add: match_here_None)
  then show ?case using Cons.IH[OF \<open>\<not> contains x (name @ ''='')\<close>] by simp
qed

lemma re_search_no_occurrence:
  "\<not> contains x (name @ ''='') \<Longrightarrow> re_search_field name x = None"
  by (induction x) (auto simp: match_here_None startswith_def)

lemma match_here_entry_value:
  assumes "CHR '';'' \<notin> set name" "CHR '';'' \<notin> set e" "tail = [] \<or> hd tail = CHR '';''"
  shows "match_here name (e @ tail) = entry_value name e"
proof (cases "startswith e (name @ ''='')")
  case False
  have p: "CHR '';'' \<notin> set (name @ ''='')" using assms(1) by simp
  have "\<not> startswith (e @ tail) (name @ ''='')"
  proof (cases tail)
    case Nil
    then show ?thesis using False by simp
  next
    case (Cons t ts)
    then have "t = CHR '';''" using assms(3) by simp
    then show ?thesis using False startswith_append_semi[OF p, of e ts] Cons by simp
  qed
  then show ?thesis using False by (simp add: match_here_def entry_value_def)
next
  case True
  then have len: "length name + 1 \<le> length e"
    by (auto simp: startswith_def dest: arg_cong[where f=length])
  have st: "startswith (e @ tail) (name @ ''='')" using True len by (simp add: startswith_def)
  have d: "drop (length name + 1) (e @ tail) = drop (length name + 1) e @ tail" using len by simp
  have ns: "\<forall>x\<in>set (drop (length name + 1) e). x \<noteq> CHR '';''"
    using assms(2) by (auto dest: in_set_dropD)
  have "takeWhile (\<lambda>c. c \<noteq> CHR '';'') (drop (length name + 1) e @ tail) = drop (length name + 1) e"
  proof (cases tail)
    case Nil
    then show ?thesis using ns by simp
  next
    case (Cons t ts)
    then have "t = CHR '';''" using assms(3) by simp
    then show ?thesis unfolding Cons using ns by (intro takeWhile_stop) auto
  qed
  then show ?thesis using True st d by (simp add: match_here_def entry_value_def Let_def)
qed

lemma re_search_entry_semi:
  assumes "CHR '';'' \<notin> set name" "CHR '';'' \<notin> set e" "key_at_start_only name e"
  shows "re_search_field name (e @ CHR '';'' # rest) =
           (case entry_value name e of Some v \<Rightarrow> Some v | None \<Rightarrow> re_search_field name rest)"
proof (cases e)
  case Nil
  have "entry_value name [] = None" by (simp add: entry_value_def startswith_def)
  moreover have "\<not> contains [] (name @ ''='')" by simp
  ultimately show ?thesis using re_search_skip_entry[OF assms(1), of "[]" rest] Nil by simp
next
  case (Cons c x)
  have nx: "\<not> contains x (name @ ''='')" using assms(3) Cons by (simp add: key_at_start_only_def)
  have m: "match_here name (e @ CHR '';'' # rest) = entry_value name e"
    by (rule match_here_entry_value[OF assms(1,2)]) simp
  show ?thesis
    using m re_search_skip_entry[OF assms(1) nx, of rest] unfolding Cons
    by (simp split: option.splits)
qed

lemma re_search_entry_last:
  assumes "CHR '';'' \<notin> set name" "CHR '';'' \<notin> set e" "key_at_start_only name e"
  shows "re_search_field name e = entry_value name e"
proof (cases e)
  case Nil
  then show ?thesis by (simp add: entry_value_def startswith_def match_here_def)
next
  case (Cons c x)
  have nx: "\<not> contains x (name @ ''='')" using assms(3) Cons by (simp add: key_at_start_only_def)
  have m: "match_here name (e @ []) = entry_value name e"
    by (rule match_here_entry_value[OF assms(1,2)]) simp
  show ?thesis
    using m re_search_no_occurrence[OF nx] unfolding Cons by (simp split: option.splits)
qed

lemma extract_first_value:
  assumes "CHR '';'' \<notin> set name"
    "\<forall>e\<in>set (split_on (CHR '';'') info). key_at_start_only name e"
  shows "extract_info_field info name = first_value name (split_on (CHR '';'') info)"
  using assms(2)
proof (induction "length info" arbitrary: info rule: less_induct)
  case less
  let ?e = "takeWhile (\<lambda>c. c \<noteq> CHR '';'') info"
  let ?r = "dropWhile (\<lambda>c. c \<noteq> CHR '';'') info"
  have e: "CHR '';'' \<notin> set ?e" by (auto dest: set_takeWhileD)
  show ?case
  proof (cases ?r)
    case Nil
    then have i: "info = ?e" by (metis append_Nil2 takeWhile_dropWhile_id)
    then have ns: "CHR '';'' \<notin> set info" using e by simp
    then have sp: "split_on (CHR '';'') info = [info]" by (rule split_on_free)
    then have "key_at_start_only name info" using less.prems by simp
    from re_search_entry_last[OF assms(1) ns this] show ?thesis
      unfolding sp extract_info_field_def by (simp split: option.splits)
  next
    case (Cons s rest)
    then have s: "s = CHR '';''" using hd_dropWhile[of "\<lambda>c. c \<noteq> CHR '';''" info] by auto
    have i: "info = ?e @ CHR '';'' # rest"
      using takeWhile_dropWhile_id[of "\<lambda>c. c \<noteq> CHR '';''" info] Cons s by simp
    have sp: "split_on (CHR '';'') info = ?e # split_on (CHR '';'') rest"
      using split_on_append_sep[OF e, of rest] i by simp
    have k: "key_at_start_only name ?e" "\<forall>e\<in>set (split_on (CHR '';'') rest). key_at_start_only name e"
      using less.prems unfolding sp by simp_all
    have "length rest < length info" using arg_cong[OF i, of length] by simp
    from less.hyps[OF this k(2)]
    have ih: "re_search_field name rest = first_value name (split_on (CHR '';'') rest)"
      by (simp add: extract_info_field_def)
    have "re_search_field name info =
        (case entry_value name ?e of Some v \<Rightarrow> Some v | None \<Rightarrow> re_search_field name rest)"
      using re_search_entry_semi[OF assms(1) e k(1), of rest] i by simp
    then show ?thesis unfolding sp extract_info_field_def using ih
      by (simp split: option.splits)
  qed
qed

text \<open>
  Claim C7, as amended. The value that the extractor uses for a key is the value of its
  first occurrence. For an INFO string in which \<open>name=\<close> stands only at the start of
  entries, it is the value of the first entry \<open>name=v\<close> with a non-empty \<open>v\<close>. For any
  string, when \<open>name=v\<close>, with \<open>v\<close> non-empty and ending at a semicolon or at the end of
  the string, stands at a position before which the pattern matches nowhere, it is \<open>v\<close>,
  whatever follows, later occurrences of the key included.
\<close>

theorem C7_first_occurrence_wins:
  "(CHR '';'' \<notin> set name \<and> (\<forall>e\<in>set (split_on (CHR '';'') info). key_at_start_only name e) \<longrightarrow>
      extract_info_field info name = first_value name (split_on (CHR '';'') info))
   \<and> (v \<noteq> [] \<and> CHR '';'' \<notin> set v \<and> (rest = [] \<or> hd rest = CHR '';'')
        \<and> (\<forall>j<length pre. match_here name (drop j (pre @ name @ ''='' @ v @ rest)) = None) \<longrightarrow>
      extract_info_field (pre @ name @ ''='' @ v @ rest) name = Some v)"
proof (intro conjI impI)
  assume "CHR '';'' \<notin> set name \<and> (\<forall>e\<in>set (split_on (CHR '';'') info). key_at_start_only name e)"
  then show "extract_info_field info name = first_value name (split_on (CHR '';'') info)"
    using extract_first_value by blast
next
  assume a: "v \<noteq> [] \<and> CHR '';'' \<notin> set v \<and> (rest = [] \<or> hd rest = CHR '';'')
        \<and> (\<forall>j<length pre. match_here name (drop j (pre @ name @ ''='' @ v @ rest)) = None)"
  then have m: "match_here name (name @ ''='' @ v @ rest) = Some v"
    using match_here_entry by blast
  from a have "re_search_field name (pre @ name @ ''='' @ v @ rest) =
      re_search_field name (name @ ''='' @ v @ rest)"
    using re_search_field_skip[of pre name "name @ ''='' @ v @ rest"] by blast
  then show "extract_info_field (pre @ name @ ''='' @ v @ rest) name = Some v"
    unfolding extract_info_field_def using re_search_field_hd[OF m] by simp
qed

theorem C7_first_occurrence_wins_witness:
  "extract_info_field ''SVTYPE=DEL;END=100;SVLEN=-50;END=200'' ''END'' =
     first_value ''END'' [''SVTYPE=DEL'', ''END=100'', ''SVLEN=-50'', ''END=200'']
   \<and> first_value ''END'' [''SVTYPE=DEL'', ''END=100'', ''SVLEN=-50'', ''END=200''] = Some ''100''
   \<and> extract_info_field (''SVTYPE=DEL;'' @ ''END'' @ ''='' @ ''100'' @ '';SVLEN=-50;END=200'') ''END''
     = Some ''100''"
proof -
  have sp: "split_on (CHR '';'') ''SVTYPE=DEL;END=100;SVLEN=-50;END=200'' =
      [''SVTYPE=DEL'', ''END=100'', ''SVLEN=-50'', ''END=200'']" by code_simp
  have h0: "CHR '';'' \<notin> set ''END'' \<and>
      (\<forall>e\<in>set (split_on (CHR '';'') ''SVTYPE=DEL;END=100;SVLEN=-50;END=200'').
          key_at_start_only ''END'' e)"
    unfolding sp by code_simp
  have h1: "''100'' \<noteq> [] \<and> CHR '';'' \<notin> set ''100''
      \<and> ('';SVLEN=-50;END=200'' = [] \<or> hd '';SVLEN=-50;END=200'' = CHR '';'')
      \<and> (\<forall>j<length ''SVTYPE=DEL;''. match_here ''END''
            (drop j (''SVTYPE=DEL;'' @ ''END'' @ ''='' @ ''100'' @ '';SVLEN=-50;END=200'')) = None)"
    by code_simp
  note inst = C7_first_occurrence_wins[of "''END''" "''SVTYPE=DEL;END=100;SVLEN=-50;END=200''"
      "''100''" "'';SVLEN=-50;END=200''" "''SVTYPE=DEL;''"]
  from inst h0 have a: "extract_info_field ''SVTYPE=DEL;END=100;SVLEN=-50;END=200'' ''END'' =
     first_value ''END'' [''SVTYPE=DEL'', ''END=100'', ''SVLEN=-50'', ''END=200'']"
    unfolding sp by blast
  have b: "first_value ''END'' [''SVTYPE=DEL'', ''END=100'', ''SVLEN=-50'', ''END=200''] = Some ''100''"
    by code_simp
  from inst h1 have c: "extract_info_field
      (''SVTYPE=DEL;'' @ ''END'' @ ''='' @ ''100'' @ '';SVLEN=-50;END=200'') ''END'' = Some ''100''"
    by blast
  from a b c show ?thesis by blast
qed

text \<open>The claim as it was stated, that the last occurrence wins, fails on a string with
  two END keys: the extractor returns the value of the first one.\<close>

theorem C7_last_occurrence_counterexample:
  "extract_info_field ''END=100;END=200'' ''END'' = Some ''100''
   \<and> extract_info_field ''END=100;END=200'' ''END'' \<noteq> Some ''200''"
  by code_simp

text \<open>
  Claim C10. The extractor finds \<open>name=\<close> wherever it stands, whatever precedes it: any
  string that holds \<open>name=\<close> followed by a character other than a semicolon gives a value.
  In particular \<^verbatim>\<open>CIEND=100\<close> gives the value 100 for END, and a deletion record with
  \<^verbatim>\<open>SVTYPE=DEL;CIEND=100;SVLEN=-50\<close> at position 1000 is written with the end 100, where
  the SVLEN rule alone gives 1050.
\<close>

theorem C10_substring_match:
  assumes "c \<noteq> CHR '';''"
  shows "(\<exists>v. extract_info_field (pre @ name @ ''='' @ c # rest) name = Some v)
   \<and> extract_info_field ''CIEND=100'' ''END'' = Some ''100''
   \<and> extract_info_field ''SVTYPE=DEL;CIEND=100;SVLEN=-50'' ''END'' = Some ''100''
   \<and> vcf_to_bed [ciend_vcf_line] True False =
       (Completed, \<lparr>bed = [bed_row ''chr1'' 999 100 ''varG'' ''N'' ''<DEL>'' ''.'' ''PASS''
           ''SVTYPE=DEL;CIEND=100;SVLEN=-50'' ''GT''], warnings = [], line_count = 1,
           variant_count = 1, skipped_ins_count = 0, parsed_bnd_count = 0,
           unparsed_bnd_count = 0\<rparr>)
   \<and> resolve_end 1000 None (Some ''-50'') = Inr 1050"
proof (intro conjI)
  show "\<exists>v. extract_info_field (pre @ name @ ''='' @ c # rest) name = Some v"
    unfolding extract_info_field_def by (rule match_anywhere[OF assms])
qed code_simp+

theorem C10_substring_match_witness:
  "\<exists>v. extract_info_field (''SVTYPE=DEL;CI'' @ ''END'' @ ''='' @ CHR ''1'' # ''00;SVLEN=-50'') ''END''
     = Some v"
proof -
  have h: "CHR ''1'' \<noteq> CHR '';''" by simp
  from C10_substring_match[OF h, of "''SVTYPE=DEL;CI''" "''END''" "''00;SVLEN=-50''"]
  show ?thesis by blast
qed

section \<open>The interval extractor\<close>









section \<open>The breakpoint resolver\<close>





text \<open>
  Claim C6. The code does not do what the claim says. A mate position of 0 makes the test
  \<^verbatim>\<open>if bnd_chrom and bnd_pos\<close> false, so the branch that would write the interval from 0
  to 1 is never reached: \<^verbatim>\<open>bnd_step\<close> writes no mate line and counts the record as
  unparsed. For the record with ALT \<^verbatim>\<open>N]chr2:0]\<close> the resolver returns chr2 and 0, and the
  run writes the base line only.
\<close>

theorem C6_telomeric_mate_not_emitted:
  "bnd_step flds format_field (Some (bnd_chrom, 0)) st =
      st\<lparr>unparsed_bnd_count := unparsed_bnd_count st + 1\<rparr>
   \<and> parse_bnd_alt ''N]chr2:0]'' = Inr (Some (''chr2'', 0))
   \<and> vcf_to_bed [telomere_vcf_line] True False =
       (Completed, \<lparr>bed = [bed_row ''chr1'' 99 100 ''bnd0'' ''N'' ''N]chr2:0]'' ''.'' ''PASS''
           ''SVTYPE=BND'' ''GT''], warnings = [], line_count = 1, variant_count = 1,
           skipped_ins_count = 0, parsed_bnd_count = 0, unparsed_bnd_count = 1\<rparr>)"
proof (intro conjI)
  show "bnd_step flds format_field (Some (bnd_chrom, 0)) st =
      st\<lparr>unparsed_bnd_count := unparsed_bnd_count st + 1\<rparr>"
    by (simp add: bnd_step_def)
  show "parse_bnd_alt ''N]chr2:0]'' = Inr (Some (''chr2'', 0))" by code_simp
  show "vcf_to_bed [telomere_vcf_line] True False =
       (Completed, \<lparr>bed = [bed_row ''chr1'' 99 100 ''bnd0'' ''N'' ''N]chr2:0]'' ''.'' ''PASS''
           ''SVTYPE=BND'' ''GT''], warnings = [], line_count = 1, variant_count = 1,
           skipped_ins_count = 0, parsed_bnd_count = 0, unparsed_bnd_count = 1\<rparr>)"
    by code_simp
qed

section \<open>Malformed lines in \<^verbatim>\<open>vcf_to_bed\<close>\<close>




text \<open>A line of exactly eight fields is treated as having too few, although the source
  provides for a missing ninth field (\<^verbatim>\<open>fields[8] if len(fields) >= 9 else ''\<close>).\<close>

lemma eight_fields_rejected:
  "length (split_on TAB (strip eight_field_vcf_line)) = 8
   \<and> vcf_to_bed [eight_field_vcf_line] True False =
     (Completed, \<lparr>bed = [], warnings = [1], line_count = 1, variant_count = 0,
        skipped_ins_count = 0, parsed_bnd_count = 0, unparsed_bnd_count = 0\<rparr>)"
  by code_simp

section \<open>The flank expander\<close>










section \<open>The multi-row aggregator\<close>

lemma squash_process_bed_line_num:
  "squash_process_bed_line line delimiter n = squash_process_bed_line line delimiter m"
  by (simp add: squash_process_bed_line_def)

lemma squash_row_length:
  "squash_process_bed_line line delimiter n = Inr (Some (k, e)) \<Longrightarrow> length e = 9"
  by (auto simp: squash_process_bed_line_def Let_def split: if_splits sum.splits)

lemma squash_loop_fold:
  "squash_loop delimiter skip_header n input_lines vs = Inr vs' \<Longrightarrow> n > 1 \<or> \<not> skip_header \<Longrightarrow>
   vs' = foldl (\<lambda>acc row. variants_append acc (fst row) (snd row)) vs (contributing delimiter input_lines)"
proof (induction input_lines arbitrary: n vs)
  case Nil
  then show ?case by (simp add: contributing_def List.map_filter_simps)
next
  case (Cons line rest)
  have n1: "n + 1 > 1 \<or> \<not> skip_header" using Cons.prems(2) by auto
  have step: "squash_loop delimiter skip_header n (line # rest) vs =
      (case squash_process_bed_line line delimiter n of
         Inl e \<Rightarrow> Inl e
       | Inr None \<Rightarrow> squash_loop delimiter skip_header (n + 1) rest vs
       | Inr (Some (sniffles_id, elements)) \<Rightarrow>
           squash_loop delimiter skip_header (n + 1) rest (variants_append vs sniffles_id elements))"
    using Cons.prems(2) by auto
  show ?case
  proof (cases "squash_process_bed_line line delimiter n")
    case (Inl e)
    then show ?thesis using Cons.prems(1) unfolding step by simp
  next
    case (Inr r)
    have r0: "squash_process_bed_line line delimiter 0 = Inr r"
      using Inr squash_process_bed_line_num[of line delimiter 0 n] by simp
    show ?thesis
    proof (cases r)
      case None
      then have "squash_loop delimiter skip_header (n + 1) rest vs = Inr vs'"
        using Cons.prems(1) Inr unfolding step by simp
      from Cons.IH[OF this n1] show ?thesis
        using r0 None by (simp add: contributing_def List.map_filter_simps)
    next
      case (Some row)
      obtain k e where row: "row = (k, e)" by (cases row)
      have "squash_loop delimiter skip_header (n + 1) rest (variants_append vs k e) = Inr vs'"
        using Cons.prems(1) Inr Some row unfolding step by simp
      from Cons.IH[OF this n1] show ?thesis
        using r0 Some row by (simp add: contributing_def List.map_filter_simps)
    qed
  qed
qed

lemma squash_variants_fold:
  assumes "squash_variants input_lines delimiter skip_header = Inr vs"
  shows "vs = foldl (\<lambda>acc row. variants_append acc (fst row) (snd row)) []
           (contributing delimiter (if skip_header then tl input_lines else input_lines))"
proof (cases "skip_header \<and> input_lines \<noteq> []")
  case True
  then obtain l ls where ls: "input_lines = l # ls" by (cases input_lines) auto
  have "squash_loop delimiter skip_header (1 + 1) ls [] = Inr vs"
    using assms True ls by (simp add: squash_variants_def)
  from squash_loop_fold[OF this] show ?thesis using True ls by simp
next
  case False
  show ?thesis
  proof (cases skip_header)
    case True
    then have "input_lines = []" using False by simp
    then show ?thesis using assms by (simp add: squash_variants_def contributing_def List.map_filter_simps)
  next
    case nh: False
    have "squash_loop delimiter skip_header 1 input_lines [] = Inr vs"
      using assms by (simp add: squash_variants_def)
    from squash_loop_fold[OF this] show ?thesis using nh by simp
  qed
qed

lemma map_of_variants_append:
  "map_of (variants_append vs k e) k' =
     (if k' = k then Some ((case map_of vs k of None \<Rightarrow> [] | Some es \<Rightarrow> es) @ [e])
      else map_of vs k')"
  by (induction vs k e rule: variants_append.induct) auto

lemma map_of_fold_append:
  "map_of (foldl (\<lambda>acc row. variants_append acc (fst row) (snd row)) vs rows) key =
     (if tuples_of key rows = [] then map_of vs key
      else Some ((case map_of vs key of None \<Rightarrow> [] | Some es \<Rightarrow> es) @ tuples_of key rows))"
  by (induction rows arbitrary: vs) (auto simp: tuples_of_def map_of_variants_append)

lemma contributing_length:
  "row \<in> set (contributing delimiter input_lines) \<Longrightarrow> length (snd row) = 9"
proof (induction input_lines)
  case Nil
  then show ?case by (simp add: contributing_def List.map_filter_simps)
next
  case (Cons line rest)
  show ?case
  proof (cases "squash_process_bed_line line delimiter 0")
    case (Inl e)
    then show ?thesis using Cons by (simp add: contributing_def List.map_filter_simps)
  next
    case (Inr r)
    show ?thesis
    proof (cases r)
      case None
      then show ?thesis using Cons Inr by (simp add: contributing_def List.map_filter_simps)
    next
      case (Some row')
      then have "row = row' \<or> row \<in> set (contributing delimiter rest)"
        using Cons.prems Inr by (simp add: contributing_def List.map_filter_simps)
      moreover have "length (snd row') = 9"
        using squash_row_length[of line delimiter 0 "fst row'" "snd row'"] Inr Some by simp
      ultimately show ?thesis using Cons.IH by auto
    qed
  qed
qed

lemma set_join_with: "set (join_with c xs) \<subseteq> insert c (\<Union>(set ` set xs))"
  by (induction c xs rule: join_with.induct) auto

lemma combined_round_trip:
  assumes "tuples \<noteq> []"
    "\<forall>t\<in>set tuples. t \<noteq> [] \<and> (\<forall>f\<in>set t. CHR '','' \<notin> set f \<and> CHR ''|'' \<notin> set f)"
  shows "map (split_on (CHR '','')) (split_on (CHR ''|'') (combined_elements tuples)) = tuples"
proof -
  have nopipe: "\<forall>w\<in>set (map (join_with (CHR '','')) tuples). CHR ''|'' \<notin> set w"
  proof
    fix w assume "w \<in> set (map (join_with (CHR '','')) tuples)"
    then obtain t where t: "t \<in> set tuples" "w = join_with (CHR '','') t" by auto
    have "set w \<subseteq> insert (CHR '','') (\<Union>(set ` set t))" unfolding t(2) by (rule set_join_with)
    then show "CHR ''|'' \<notin> set w" using assms(2) t(1) by auto
  qed
  have ne: "map (join_with (CHR '','')) tuples \<noteq> []" using assms(1) by simp
  have 1: "split_on (CHR ''|'') (combined_elements tuples) = map (join_with (CHR '','')) tuples"
    unfolding combined_elements_def by (rule split_join[OF ne nopipe])
  have 2: "map (split_on (CHR '','')) (map (join_with (CHR '','')) tuples) = tuples"
  proof -
    have "\<forall>t\<in>set tuples. split_on (CHR '','') (join_with (CHR '','') t) = t"
      using assms(2) by (auto intro: split_join)
    then show ?thesis by (simp add: map_idI)
  qed
  show ?thesis unfolding 1 2 ..
qed

text \<open>
  Claim C5, as amended. For every key of the aggregation, the list kept for the key is the
  list of the element tuples of its rows in the order of the input, the output line is the
  key, a tab and the Elements field, and, provided that no field of these tuples holds a
  comma or a pipe, splitting the Elements field on the pipe and each piece on the comma
  gives these tuples back in that order.
\<close>

theorem C5_elements_round_trip:
  assumes "squash_variants input_lines delimiter skip_header = Inr vs"
    "map_of vs key = Some tuples"
    "\<forall>t\<in>set tuples. \<forall>f\<in>set t. CHR '','' \<notin> set f \<and> CHR ''|'' \<notin> set f"
  shows "tuples = tuples_of key (contributing delimiter
                    (if skip_header then tl input_lines else input_lines))
     \<and> tuples \<noteq> []
     \<and> format_output_line key tuples = key @ TAB # combined_elements tuples
     \<and> map (split_on (CHR '','')) (split_on (CHR ''|'') (combined_elements tuples)) = tuples"
proof -
  let ?rows = "contributing delimiter (if skip_header then tl input_lines else input_lines)"
  have "map_of vs key = (if tuples_of key ?rows = [] then None else Some (tuples_of key ?rows))"
    unfolding squash_variants_fold[OF assms(1)] map_of_fold_append by simp
  then have t: "tuples = tuples_of key ?rows" "tuples \<noteq> []"
    using assms(2) by (auto split: if_splits)
  have "\<forall>t\<in>set tuples. t \<noteq> []"
  proof
    fix e assume "e \<in> set tuples"
    then obtain row where "row \<in> set ?rows" "e = snd row"
      unfolding t(1) tuples_of_def by auto
    then have "length e = 9" using contributing_length by blast
    then show "e \<noteq> []" by auto
  qed
  then have "map (split_on (CHR '','')) (split_on (CHR ''|'') (combined_elements tuples)) = tuples"
    using combined_round_trip[OF t(2)] assms(3) by blast
  then show ?thesis using t by (simp add: format_output_line_def)
qed

theorem C5_elements_round_trip_witness:
  "map (split_on (CHR '','')) (split_on (CHR ''|'')
     (combined_elements [[''chr1'', ''150'', ''180'', ''L1'', ''LINE'', ''+'', ''1'', ''30'', ''7''],
                         [''chr1'', ''190'', ''199'', ''Alu'', ''SINE'', ''-'', ''5'', ''14'', ''8'']]))
   = [[''chr1'', ''150'', ''180'', ''L1'', ''LINE'', ''+'', ''1'', ''30'', ''7''],
      [''chr1'', ''190'', ''199'', ''Alu'', ''SINE'', ''-'', ''5'', ''14'', ''8'']]
   \<and> tuples_of ''v1'' (contributing [TAB] [squash_row_a, squash_row_c, squash_row_b])
   = [[''chr1'', ''150'', ''180'', ''L1'', ''LINE'', ''+'', ''1'', ''30'', ''7''],
      [''chr1'', ''190'', ''199'', ''Alu'', ''SINE'', ''-'', ''5'', ''14'', ''8'']]"
proof -
  let ?t = "[[''chr1'', ''150'', ''180'', ''L1'', ''LINE'', ''+'', ''1'', ''30'', ''7''],
             [''chr1'', ''190'', ''199'', ''Alu'', ''SINE'', ''-'', ''5'', ''14'', ''8'']]"
  let ?vs = "[(''v1'', ?t), (''v2'', [[''chr2'', ''150'', ''180'', ''L2'', ''LINE'', ''+'', ''1'', ''30'', ''9'']])]"
  have h1: "squash_variants [squash_row_a, squash_row_c, squash_row_b] [TAB] False = Inr ?vs"
    by code_simp
  have h2: "map_of ?vs ''v1'' = Some ?t" by simp
  have h3: "\<forall>t\<in>set ?t. \<forall>f\<in>set t. CHR '','' \<notin> set f \<and> CHR ''|'' \<notin> set f" by simp
  from C5_elements_round_trip[OF h1 h2 h3]
  have a: "?t = tuples_of ''v1'' (contributing [TAB]
        (if False then tl [squash_row_a, squash_row_c, squash_row_b]
         else [squash_row_a, squash_row_c, squash_row_b]))"
    and b: "map (split_on (CHR '','')) (split_on (CHR ''|'') (combined_elements ?t)) = ?t"
    by blast+
  have a': "tuples_of ''v1'' (contributing [TAB] [squash_row_a, squash_row_c, squash_row_b]) = ?t"
    using a by simp
  show ?thesis by (rule conjI[OF b a'])
qed

text \<open>The claim as it was stated fails when a field holds a delimiter: a row whose
  column 14 is \<^verbatim>\<open>L1,L2\<close> comes back from the splitting as a tuple of ten fields.\<close>

theorem C5_delimiter_in_field_counterexample:
  "squash_variants [squash_row_comma] [TAB] False =
     Inr [(''v3'', [[''chr1'', ''150'', ''180'', ''L1,L2'', ''LINE'', ''+'', ''1'', ''30'', ''7'']])]
   \<and> map (split_on (CHR '','')) (split_on (CHR ''|'')
        (combined_elements [[''chr1'', ''150'', ''180'', ''L1,L2'', ''LINE'', ''+'', ''1'', ''30'', ''7'']]))
     = [[''chr1'', ''150'', ''180'', ''L1'', ''L2'', ''LINE'', ''+'', ''1'', ''30'', ''7'']]
   \<and> [[''chr1'', ''150'', ''180'', ''L1'', ''L2'', ''LINE'', ''+'', ''1'', ''30'', ''7'']]
     \<noteq> [[''chr1'', ''150'', ''180'', ''L1,L2'', ''LINE'', ''+'', ''1'', ''30'', ''7'']]"
  by code_simp

end
